theory Spec2Isabelle
  imports Complex_Main
begin

section \<open>Python values and the failures of the built-in operations\<close>

text \<open>
  The provider's answers are parsed JSON (\<open>response.json()\<close>), typed \<open>Dict[str, Any]\<close>
  in the source. A number is kept by its exact value (Python \<open>int\<close> and finite
  \<open>float\<close> values are rationals). A dict is an association list read with \<open>map_of\<close>.
  A Python \<open>str\<close> is a \<open>string\<close>: one \<open>char\<close> per code point, which covers the
  code points below 256 (all the string literals modelled here are in that range).
\<close>

datatype json =
    JNull
  | JBool bool
  | JNum rat
  | JStr string
  | JList "json list"
  | JDict "(string \<times> json) list"

text \<open>
  The exceptions the modelled code can raise. \<open>TimeoutError t s\<close> stands for the message
  \<open>f"Batch no complet\'o en {t}s. \'Ultimo estado: {s}"\<close> of \<open>wait_for_batch\<close>: its two
  arguments are the two interpolated values. \<open>UnboundLocalError\<close> is Python's subclass
  of \<open>NameError\<close> for a local variable read before assignment. \<open>ProviderError\<close> is any
  failure of a call to the external provider, \<open>HTTPException\<close> carries the status code.
\<close>

datatype error =
    TypeError
  | AttributeError
  | ValueError
  | UnboundLocalError
  | TimeoutError int string
  | ProviderError string
  | HTTPException nat

text \<open>\<open>obj.get(key, default)\<close>: only a dict has the method.\<close>

fun py_get :: "json \<Rightarrow> string \<Rightarrow> json \<Rightarrow> error + json" where
  "py_get (JDict kvs) k d = Inr (case map_of kvs k of Some v \<Rightarrow> v | None \<Rightarrow> d)"
| "py_get _ k d = Inl AttributeError"

text \<open>\<open>for x in obj\<close>: a list gives its items, a dict its keys, a string its characters;
  nothing else is iterable.\<close>

fun py_iter :: "json \<Rightarrow> error + json list" where
  "py_iter (JList xs) = Inr xs"
| "py_iter (JDict kvs) = Inr (map (\<lambda>kv. JStr (fst kv)) kvs)"
| "py_iter (JStr s) = Inr (map (\<lambda>c. JStr [c]) s)"
| "py_iter _ = Inl TypeError"

text \<open>Truth value of a Python object, as \<open>if obj\<close>, \<open>not obj\<close> and \<open>obj or d\<close> read it.\<close>

fun truthy :: "json \<Rightarrow> bool" where
  "truthy JNull = False"
| "truthy (JBool b) = b"
| "truthy (JNum q) = (q \<noteq> 0)"
| "truthy (JStr s) = (s \<noteq> [])"
| "truthy (JList xs) = (xs \<noteq> [])"
| "truthy (JDict kvs) = (kvs \<noteq> [])"

text \<open>\<open>str.strip()\<close> removes the characters for which \<open>str.isspace\<close> holds, at both ends.
  Below code point 256 these are 9..13, 28..32, 133 and 160.\<close>

definition is_space :: "char \<Rightarrow> bool" where
  "is_space c = (let n = (of_char c :: nat) in
     (9 \<le> n \<and> n \<le> 13) \<or> (28 \<le> n \<and> n \<le> 32) \<or> n = 133 \<or> n = 160)"

definition strip :: "string \<Rightarrow> string" where
  "strip s = rev (dropWhile is_space (rev (dropWhile is_space s)))"

text \<open>\<open>sep.join(items)\<close> on strings.\<close>

fun join :: "string \<Rightarrow> string list \<Rightarrow> string" where
  "join sep [] = []"
| "join sep [x] = x"
| "join sep (x # y # ys) = x @ sep @ join sep (y # ys)"

text \<open>\<open>sep.join(items)\<close> on arbitrary objects raises \<open>TypeError\<close> at the first item
  that is not a \<open>str\<close>.\<close>

fun as_strs :: "json list \<Rightarrow> error + string list" where
  "as_strs [] = Inr []"
| "as_strs (JStr s # xs) = (case as_strs xs of Inl e \<Rightarrow> Inl e | Inr ss \<Rightarrow> Inr (s # ss))"
| "as_strs (_ # xs) = Inl TypeError"

definition py_join :: "string \<Rightarrow> json list \<Rightarrow> error + string" where
  "py_join sep xs = (case as_strs xs of Inl e \<Rightarrow> Inl e | Inr ss \<Rightarrow> Inr (join sep ss))"

section \<open>vector\_search.py: text of a hit\<close>

text \<open>
  One pass of the loop body of \<open>extract_text_from_hit\<close> in \<open>vector_search.py\<close>: what the
  part appends to \<open>texts\<close>. The \<open>elif\<close> is kept as the source has it; it asks again for
  the key \<open>"text"\<close> that the \<open>if\<close> has just found missing.
\<close>

fun part_texts :: "json \<Rightarrow> json list" where
  "part_texts (JDict kvs) =
     (case map_of kvs ''text'' of
        Some v \<Rightarrow> [v]
      | None \<Rightarrow>
         (if map_of kvs ''type'' = Some (JStr ''text'') \<and> map_of kvs ''text'' \<noteq> None
          then (case map_of kvs ''text'' of Some w \<Rightarrow> [w] | None \<Rightarrow> [])
          else []))"
| "part_texts _ = []"

definition extract_text_from_hit :: "json \<Rightarrow> error + string" where
  "extract_text_from_hit hit =
     (case py_get hit ''content'' (JList []) of
        Inl e \<Rightarrow> Inl e
      | Inr parts \<Rightarrow>
         (case py_iter parts of
            Inl e \<Rightarrow> Inl e
          | Inr items \<Rightarrow>
             (case py_join ''\<newline>'' (concat (map part_texts items)) of
                Inl e \<Rightarrow> Inl e
              | Inr s \<Rightarrow> Inr (strip s))))"

section \<open>backend/api.py: text of a hit, as the query handler extracts it\<close>

text \<open>Case C of the handler's chain: \<open>p.get("type") == "text" and isinstance(p.get("value"), str)\<close>.\<close>

definition typed_value :: "(string \<times> json) list \<Rightarrow> string list" where
  "typed_value kvs =
     (if map_of kvs ''type'' = Some (JStr ''text'')
      then (case map_of kvs ''value'' of Some (JStr s) \<Rightarrow> [s] | _ \<Rightarrow> [])
      else [])"

text \<open>
  One pass of the loop body of the nested \<open>extract_text_from_hit\<close> of \<open>query_rag\<close>:
  case A \<open>{"text": "..."}\<close>, case B \<open>{"text": {"value": "..."}}\<close>, case C
  \<open>{"type": "text", "value": "..."}\<close>, tried in this order; a failed case falls
  through to the next.
\<close>

fun part_texts_api :: "json \<Rightarrow> string list" where
  "part_texts_api (JDict kvs) =
     (case map_of kvs ''text'' of
        Some (JStr s) \<Rightarrow> [s]
      | Some (JDict tv) \<Rightarrow>
          (case map_of tv ''value'' of Some (JStr s) \<Rightarrow> [s] | _ \<Rightarrow> typed_value kvs)
      | _ \<Rightarrow> typed_value kvs)"
| "part_texts_api _ = []"

definition extract_text_from_hit_api :: "json \<Rightarrow> error + string" where
  "extract_text_from_hit_api hit =
     (case py_get hit ''content'' (JList []) of
        Inl e \<Rightarrow> Inl e
      | Inr parts0 \<Rightarrow>
         (case py_iter (if truthy parts0 then parts0 else JList []) of
            Inl e \<Rightarrow> Inl e
          | Inr items \<Rightarrow>
             Inr (strip (join ''\<newline>''
                    (map strip (filter (\<lambda>t. t \<noteq> [] \<and> strip t \<noteq> [])
                       (concat (map part_texts_api items))))))))"

section \<open>vector\_search.py: the assembled context\<close>

text \<open>\<open>str(i)\<close> for a natural number: its decimal digits.\<close>

definition digit_char :: "nat \<Rightarrow> char" where
  "digit_char d = char_of (48 + d)"

function str_nat :: "nat \<Rightarrow> string" where
  "str_nat n = (if n < 10 then [digit_char n] else str_nat (n div 10) @ [digit_char (n mod 10)])"
  by pat_completeness auto
termination
  by (relation "measure id") auto

text \<open>
  The two formatting built-ins the header uses are parameters: \<open>fmt2f q\<close> is
  \<open>format(q, ".2f")\<close> on a number, \<open>str_of v\<close> is \<open>str(v)\<close> on a value that is not a
  string.
\<close>

record formatter =
  fmt2f :: "rat \<Rightarrow> string"
  str_of :: "json \<Rightarrow> string"

text \<open>\<open>f"{score:.2f}"\<close>: numbers and booleans format, a string raises \<open>ValueError\<close>,
  everything else \<open>TypeError\<close>.\<close>

fun fmt_score :: "formatter \<Rightarrow> json \<Rightarrow> error + string" where
  "fmt_score F (JNum q) = Inr (fmt2f F q)"
| "fmt_score F (JBool b) = Inr (fmt2f F (if b then 1 else 0))"
| "fmt_score F (JStr s) = Inl ValueError"
| "fmt_score F _ = Inl TypeError"

text \<open>\<open>f"{filename}"\<close>.\<close>

fun fmt_str :: "formatter \<Rightarrow> json \<Rightarrow> string" where
  "fmt_str F (JStr s) = s"
| "fmt_str F v = str_of F v"

text \<open>The block of one hit that has text, at position \<open>i\<close> of the enumeration.\<close>

definition render_block :: "formatter \<Rightarrow> bool \<Rightarrow> nat \<Rightarrow> json \<Rightarrow> string \<Rightarrow> error + string" where
  "render_block F include_source i hit text =
     (if include_source then
        (case py_get hit ''filename'' (JStr ''unknown'') of
           Inl e \<Rightarrow> Inl e
         | Inr filename \<Rightarrow>
            (case py_get hit ''score'' (JNum 0) of
               Inl e \<Rightarrow> Inl e
             | Inr score \<Rightarrow>
                (case fmt_score F score of
                   Inl e \<Rightarrow> Inl e
                 | Inr sc \<Rightarrow>
                    Inr ((''[KB#'' @ str_nat i @ '' - '' @ fmt_str F filename
                            @ '' (score: '' @ sc @ '')]'') @ ''\<newline>'' @ text))))
      else Inr (''[KB#'' @ str_nat i @ '']'' @ ''\<newline>'' @ text))"

text \<open>The loop \<open>for i, hit in enumerate(..., start=1)\<close>, from index \<open>i\<close> on: the
  snippets appended, or the first exception.\<close>

fun snippets_from :: "formatter \<Rightarrow> bool \<Rightarrow> nat \<Rightarrow> json list \<Rightarrow> error + string list" where
  "snippets_from F include_source i [] = Inr []"
| "snippets_from F include_source i (hit # hits) =
     (case extract_text_from_hit hit of
        Inl e \<Rightarrow> Inl e
      | Inr text \<Rightarrow>
         (if text = [] then snippets_from F include_source (Suc i) hits
          else
            (case render_block F include_source i hit text of
               Inl e \<Rightarrow> Inl e
             | Inr snippet \<Rightarrow>
                (case snippets_from F include_source (Suc i) hits of
                   Inl e \<Rightarrow> Inl e
                 | Inr rest \<Rightarrow> Inr (snippet # rest)))))"

text \<open>\<open>s[:n]\<close> for an integer \<open>n\<close>: a negative \<open>n\<close> counts from the end.\<close>

definition py_prefix :: "string \<Rightarrow> int \<Rightarrow> string" where
  "py_prefix s n = (if 0 \<le> n then take (nat n) s else take (length s - nat (- n)) s)"

text \<open>The marker \<open>"\n\n[... truncado por l\'imite de tokens ...]"\<close>; the accented letter is
  code point 237.\<close>

definition truncation_marker :: string where
  "truncation_marker =
     ''\<newline>\<newline>[... truncado por l'' @ [char_of (237::nat)] @ ''mite de tokens ...]''"

definition default_separator :: string where
  "default_separator = ''\<newline>\<newline>---\<newline>\<newline>''"

definition extract_context :: "formatter \<Rightarrow> json \<Rightarrow> int \<Rightarrow> bool \<Rightarrow> string \<Rightarrow> error + string" where
  "extract_context F search_results max_chars include_source separator =
     (case py_get search_results ''data'' (JList []) of
        Inl e \<Rightarrow> Inl e
      | Inr data \<Rightarrow>
         (case py_iter data of
            Inl e \<Rightarrow> Inl e
          | Inr hits \<Rightarrow>
             (case snippets_from F include_source 1 hits of
                Inl e \<Rightarrow> Inl e
              | Inr snippets \<Rightarrow>
                 (let context = join separator snippets in
                  Inr (if int (length context) > max_chars
                       then py_prefix context max_chars @ truncation_marker
                       else context)))))"

section \<open>batch\_manager.py\<close>

text \<open>The provider's \<open>VectorStoreFileBatch\<close>, as far as the module reads it.\<close>

record file_counts =
  completed :: int
  in_progress :: int
  failed :: int
  cancelled :: int

record batch =
  batch_id :: string
  status :: string
  counts :: "file_counts option"

text \<open>The keyword arguments of \<open>client.vector_stores.file_batches.create\<close>; the key
  \<open>chunking_strategy\<close> is present only when the argument is truthy.\<close>

record create_params =
  p_vector_store_id :: string
  p_file_ids :: "string list"
  p_chunking_strategy :: "json option"

text \<open>
  \<open>create_file_batch\<close>. The provider's \<open>create\<close> call is a parameter. The result pairs
  the requests submitted to the provider with the value returned (the batch id) or the
  exception raised.
\<close>

definition create_file_batch ::
  "(create_params \<Rightarrow> error + batch) \<Rightarrow> string \<Rightarrow> string list \<Rightarrow> json option
     \<Rightarrow> create_params list \<times> (error + string)" where
  "create_file_batch provider_create vector_store_id file_ids chunking_strategy =
     (let create_params =
            \<lparr> p_vector_store_id = vector_store_id,
              p_file_ids = file_ids,
              p_chunking_strategy =
                (case chunking_strategy of
                   None \<Rightarrow> None
                 | Some c \<Rightarrow> (if truthy c then Some c else None)) \<rparr>
      in ([create_params],
          (case provider_create create_params of
             Inl e \<Rightarrow> Inl e
           | Inr b \<Rightarrow> Inr (batch_id b))))"

text \<open>
  The loop of \<open>wait_for_batch\<close>, from its iteration \<open>k\<close> on. \<open>clock k\<close> is the value of
  \<open>int(time.time() - start_time)\<close> read at iteration \<open>k\<close>, \<open>poll k\<close> is what the
  \<open>k\<close>-th call of \<open>get_batch_status\<close> returns or raises, \<open>cur\<close> is the local variable
  \<open>batch\<close> (\<open>None\<close> while it is unbound). \<open>time.sleep\<close> raises \<open>ValueError\<close> on a
  negative length. The fuel bounds the number of iterations; \<open>None\<close> is a loop that
  has not returned within it.
\<close>

fun wait_loop ::
  "nat \<Rightarrow> int \<Rightarrow> int \<Rightarrow> (nat \<Rightarrow> int) \<Rightarrow> (nat \<Rightarrow> error + batch) \<Rightarrow> nat \<Rightarrow> batch option
     \<Rightarrow> (error + string) option" where
  "wait_loop 0 timeout_seconds poll_interval clock poll k cur = None"
| "wait_loop (Suc fuel) timeout_seconds poll_interval clock poll k cur =
     (let elapsed = clock k in
      if elapsed \<ge> timeout_seconds then
        (case cur of
           None \<Rightarrow> Some (Inl UnboundLocalError)
         | Some b \<Rightarrow> Some (Inl (TimeoutError timeout_seconds (status b))))
      else
        (case poll k of
           Inl e \<Rightarrow> Some (Inl e)
         | Inr b \<Rightarrow>
            (if status b = ''completed'' then Some (Inr ''completed'')
             else if status b = ''failed'' then Some (Inr ''failed'')
             else if status b = ''cancelled'' then Some (Inr ''cancelled'')
             else if poll_interval < 0 then Some (Inl ValueError)
             else wait_loop fuel timeout_seconds poll_interval clock poll (Suc k) (Some b))))"

definition wait_for_batch ::
  "nat \<Rightarrow> int \<Rightarrow> int \<Rightarrow> (nat \<Rightarrow> int) \<Rightarrow> (nat \<Rightarrow> error + batch) \<Rightarrow> (error + string) option" where
  "wait_for_batch fuel timeout_seconds poll_interval clock poll =
     wait_loop fuel timeout_seconds poll_interval clock poll 0 None"

text \<open>The statuses on which the loop returns.\<close>

definition terminal :: "string \<Rightarrow> bool" where
  "terminal s = (s = ''completed'' \<or> s = ''failed'' \<or> s = ''cancelled'')"

text \<open>Iteration \<open>k\<close> of the loop is reached: every earlier iteration read a clock
  below the timeout and polled a batch that was not terminal, and the sleep between
  two iterations did not raise.\<close>

definition reached :: "int \<Rightarrow> int \<Rightarrow> (nat \<Rightarrow> int) \<Rightarrow> (nat \<Rightarrow> error + batch) \<Rightarrow> nat \<Rightarrow> bool" where
  "reached timeout_seconds poll_interval clock poll k =
     ((k = 0 \<or> 0 \<le> poll_interval) \<and>
      (\<forall>j \<in> set [0..<k]. clock j < timeout_seconds \<and>
         (case poll j of Inl e \<Rightarrow> False | Inr b \<Rightarrow> \<not> terminal (status b))))"

section \<open>backend/rag\_assistant.py: RAGAssistant.answer\<close>

record message =
  role :: string
  content :: string

text \<open>A call of \<open>client.chat.completions.create\<close>: the model and the messages (the
  sampling options are passed through and not modelled).\<close>

record gen_request =
  g_model :: string
  g_messages :: "message list"

record rag_assistant =
  vector_store_id :: string
  model :: string
  system_prompt :: string
  max_results :: int
  max_context_chars :: int

text \<open>The dataclass \<open>RAGResponse\<close>; its fields carry the prefix \<open>r_\<close>.\<close>

record rag_response =
  r_answer :: string
  r_context :: string
  r_sources :: "json list"
  r_query :: string
  r_model :: string
  r_search_results :: json

text \<open>\<open>[hit.get("filename", "unknown") for hit in ...]\<close>.\<close>

fun hit_filenames :: "json list \<Rightarrow> error + json list" where
  "hit_filenames [] = Inr []"
| "hit_filenames (hit # hits) =
     (case py_get hit ''filename'' (JStr ''unknown'') of
        Inl e \<Rightarrow> Inl e
      | Inr f \<Rightarrow>
         (case hit_filenames hits of
            Inl e \<Rightarrow> Inl e
          | Inr fs \<Rightarrow> Inr (f # fs)))"

text \<open>
  \<open>RAGAssistant.answer\<close>. The search request (\<open>search_vector_store\<close>, an HTTP call) and
  the generation call are parameters. The result pairs the generation requests made
  with the response returned or the exception raised.
\<close>

definition answer_messages :: "rag_assistant \<Rightarrow> string \<Rightarrow> string \<Rightarrow> string option \<Rightarrow> message list" where
  "answer_messages self ctx q additional_context =
     [\<lparr> role = ''system'', content = system_prompt self \<rparr>]
     @ (if ctx \<noteq> []
        then [\<lparr> role = ''system'', content = ''KNOWLEDGE BASE CONTEXT:\<newline>'' @ ctx \<rparr>]
        else [])
     @ (case additional_context of
          None \<Rightarrow> []
        | Some a \<Rightarrow>
           (if a \<noteq> []
            then [\<lparr> role = ''system'', content = ''ADDITIONAL CONTEXT:\<newline>'' @ a \<rparr>]
            else []))
     @ [\<lparr> role = ''user'', content = q \<rparr>]"

definition rag_answer ::
  "formatter \<Rightarrow> (string \<Rightarrow> string \<Rightarrow> int \<Rightarrow> error + json) \<Rightarrow> (gen_request \<Rightarrow> error + string)
     \<Rightarrow> rag_assistant \<Rightarrow> string \<Rightarrow> string option
     \<Rightarrow> gen_request list \<times> (error + rag_response)" where
  "rag_answer F search_vector_store generate self q additional_context =
     (case search_vector_store (vector_store_id self) q (max_results self) of
        Inl e \<Rightarrow> ([], Inl e)
      | Inr results \<Rightarrow>
     (case extract_context F results (max_context_chars self) True default_separator of
        Inl e \<Rightarrow> ([], Inl e)
      | Inr ctx \<Rightarrow>
     (case py_get results ''data'' (JList []) of
        Inl e \<Rightarrow> ([], Inl e)
      | Inr data \<Rightarrow>
     (case py_iter data of
        Inl e \<Rightarrow> ([], Inl e)
      | Inr hits \<Rightarrow>
     (case hit_filenames hits of
        Inl e \<Rightarrow> ([], Inl e)
      | Inr srcs \<Rightarrow>
         (let req = \<lparr> g_model = model self,
                      g_messages = answer_messages self ctx q additional_context \<rparr>
          in ([req],
              (case generate req of
                 Inl e \<Rightarrow> Inl e
               | Inr answer_text \<Rightarrow>
                  Inr \<lparr> r_answer = answer_text, r_context = ctx, r_sources = srcs, r_query = q,
                        r_model = model self, r_search_results = results \<rparr>))))))))"

section \<open>backend/api.py: the handler of /api/query\<close>

record query_request =
  q_query :: string
  q_vector_store_id :: "string option"
  q_model :: string

record query_response =
  success :: bool
  answer :: string
  sources :: "string list"
  context_excerpt :: string

text \<open>What the handler reads of the global \<open>state\<close>: whether a client is configured
  and the current vector store id.\<close>

record app_state =
  client_configured :: bool
  state_vector_store_id :: "string option"

text \<open>The locals of the loop over the hits: \<open>chunks\<close>, \<open>sources\<close> and the keys of
  \<open>file_id_to_name\<close>.\<close>

record loop_state =
  chunks :: "string list"
  srcs :: "string list"
  file_id_keys :: "json list"

text \<open>Lists and dicts are not hashable. As dict keys, \<open>True\<close> and \<open>1\<close> (\<open>False\<close> and
  \<open>0\<close>) are the same key.\<close>

fun hashable :: "json \<Rightarrow> bool" where
  "hashable (JList xs) = False"
| "hashable (JDict kvs) = False"
| "hashable _ = True"

fun key_norm :: "json \<Rightarrow> json" where
  "key_norm (JBool b) = JNum (if b then 1 else 0)"
| "key_norm v = v"

definition key_in :: "json \<Rightarrow> json list \<Rightarrow> bool" where
  "key_in k ks = (key_norm k \<in> set (map key_norm ks))"

text \<open>
  The body of the loop for one hit at position \<open>i\<close>. \<open>retrieve\<close> is
  \<open>state.client.files.retrieve(file_id)\<close> followed by \<open>.filename\<close>; whatever it raises
  is swallowed by the bare \<open>except: pass\<close>.
\<close>

definition query_step ::
  "(json \<Rightarrow> error + string) \<Rightarrow> nat \<Rightarrow> json \<Rightarrow> loop_state \<Rightarrow> error + loop_state" where
  "query_step retrieve i hit st =
     (case py_get hit ''file_id'' JNull of
        Inl e \<Rightarrow> Inl e
      | Inr file_id \<Rightarrow>
         (case extract_text_from_hit_api hit of
            Inl e \<Rightarrow> Inl e
          | Inr txt \<Rightarrow>
             (if txt = [] then Inr st
              else
                (let st1 = st\<lparr> chunks := chunks st @ [''[Chunk #'' @ str_nat i @ '']'' @ ''\<newline>'' @ txt] \<rparr>
                 in if \<not> truthy file_id then Inr st1
                    else if \<not> hashable file_id then Inl TypeError
                    else if key_in file_id (file_id_keys st1) then Inr st1
                    else
                      (case retrieve file_id of
                         Inl e \<Rightarrow> Inr st1
                       | Inr filename \<Rightarrow>
                          Inr (st1\<lparr> file_id_keys := file_id_keys st1 @ [file_id],
                                    srcs := (if filename \<in> set (srcs st1) then srcs st1
                                             else srcs st1 @ [filename]) \<rparr>))))))"

fun query_loop ::
  "(json \<Rightarrow> error + string) \<Rightarrow> nat \<Rightarrow> json list \<Rightarrow> loop_state \<Rightarrow> error + loop_state" where
  "query_loop retrieve i [] st = Inr st"
| "query_loop retrieve i (hit # hits) st =
     (case query_step retrieve i hit st of
        Inl e \<Rightarrow> Inl e
      | Inr st' \<Rightarrow> query_loop retrieve (Suc i) hits st')"

text \<open>\<open>obj[:10]\<close>: a list or a string gives its first ten items; a dict or any other
  value raises.\<close>

fun slice10 :: "json \<Rightarrow> error + json" where
  "slice10 (JList xs) = Inr (JList (take 10 xs))"
| "slice10 (JStr s) = Inr (JStr (take 10 s))"
| "slice10 _ = Inl TypeError"

text \<open>The fixed answer of the handler when there is no context; the accented letters
  are code points 233 and 243.\<close>

definition no_info_answer :: string where
  "no_info_answer =
     ''No encontr'' @ [char_of (233::nat)] @ '' informaci'' @ [char_of (243::nat)]
       @ ''n relevante en los documentos para responder a tu pregunta.''"

text \<open>The handler's system prompt; code points 250, 225, 218, 243 and 233 are its
  accented letters.\<close>

definition query_system_prompt :: string where
  "query_system_prompt =
     ''Eres un asistente '' @ [char_of (250::nat)] @ ''til que responde preguntas bas''
       @ [char_of (225::nat)] @ ''ndote '' @ [char_of (218::nat)]
       @ ''NICAMENTE en el contexto proporcionado de la base de conocimiento.''
       @ ''\<newline>\<newline>REGLAS:\<newline>''
       @ ''- Usa SOLO la informaci'' @ [char_of (243::nat)]
       @ ''n del contexto KB que se te proporciona\<newline>''
       @ ''- Si la informaci'' @ [char_of (243::nat)] @ ''n no est'' @ [char_of (225::nat)]
       @ '' en el contexto, di claramente que no tienes esa informaci''
       @ [char_of (243::nat)] @ ''n\<newline>''
       @ ''- S'' @ [char_of (233::nat)] @ '' preciso, conciso y amable\<newline>''
       @ ''- Responde en el mismo idioma que la pregunta''"

definition query_messages :: "string \<Rightarrow> string \<Rightarrow> message list" where
  "query_messages ctx q =
     [\<lparr> role = ''system'', content = query_system_prompt \<rparr>,
      \<lparr> role = ''system'',
        content = ''CONTEXTO DE LA BASE DE CONOCIMIENTO:\<newline>\<newline>'' @ ctx \<rparr>,
      \<lparr> role = ''user'', content = q \<rparr>]"

text \<open>
  Steps 2 and 3 of the \<open>try\<close> block of \<open>query_rag\<close>, after the search request has
  returned \<open>search_data\<close>: the context (joined and cut to 8000 characters) and the
  sources.
\<close>

definition query_context :: "(json \<Rightarrow> error + string) \<Rightarrow> json \<Rightarrow> error + (string \<times> string list)" where
  "query_context retrieve search_data =
     (case py_get search_data ''data'' (JList []) of
        Inl e \<Rightarrow> Inl e
      | Inr data \<Rightarrow>
     (case slice10 data of
        Inl e \<Rightarrow> Inl e
      | Inr top10 \<Rightarrow>
     (case py_iter top10 of
        Inl e \<Rightarrow> Inl e
      | Inr hits \<Rightarrow>
     (case query_loop retrieve 1 hits \<lparr> chunks = [], srcs = [], file_id_keys = [] \<rparr> of
        Inl e \<Rightarrow> Inl e
      | Inr st \<Rightarrow> Inr (take 8000 (join default_separator (chunks st)), srcs st)))))"

text \<open>Steps 4 to 6: the generation requests made, with the response or the exception.\<close>

definition query_body ::
  "(json \<Rightarrow> error + string) \<Rightarrow> (gen_request \<Rightarrow> error + string) \<Rightarrow> query_request \<Rightarrow> json
     \<Rightarrow> gen_request list \<times> (error + query_response)" where
  "query_body retrieve generate request search_data =
     (case query_context retrieve search_data of
        Inl e \<Rightarrow> ([], Inl e)
      | Inr (ctx, found) \<Rightarrow>
         (if ctx = [] then
            ([], Inr \<lparr> success = True, answer = no_info_answer, sources = [],
                       context_excerpt = [] \<rparr>)
          else
            (let req = \<lparr> g_model = q_model request, g_messages = query_messages ctx (q_query request) \<rparr>
             in ([req],
                 (case generate req of
                    Inl e \<Rightarrow> Inl e
                  | Inr a \<Rightarrow>
                     Inr \<lparr> success = True, answer = a, sources = found,
                           context_excerpt =
                             (if length ctx > 500 then take 500 ctx @ ''...'' else ctx) \<rparr>)))))"

text \<open>The \<open>except\<close> clauses of the handler: an \<open>HTTPException\<close> is raised again, every
  other exception becomes the status 500.\<close>

fun to_http :: "error \<Rightarrow> error" where
  "to_http (HTTPException c) = HTTPException c"
| "to_http _ = HTTPException 500"

text \<open>\<open>query_rag\<close>. \<open>resolve_vs_id\<close> is \<open>request.vector_store_id or state.vector_store_id\<close>;
  the search request is the parameter \<open>search\<close>, from the resolved vector store id and
  the query.\<close>

definition resolve_vs_id :: "app_state \<Rightarrow> query_request \<Rightarrow> string option" where
  "resolve_vs_id state request =
     (case q_vector_store_id request of
        Some v \<Rightarrow> (if v \<noteq> [] then Some v else state_vector_store_id state)
      | None \<Rightarrow> state_vector_store_id state)"

definition query_rag ::
  "app_state \<Rightarrow> (string \<Rightarrow> string \<Rightarrow> error + json) \<Rightarrow> (json \<Rightarrow> error + string)
     \<Rightarrow> (gen_request \<Rightarrow> error + string) \<Rightarrow> query_request
     \<Rightarrow> gen_request list \<times> (error + query_response)" where
  "query_rag state search retrieve generate request =
     (if \<not> client_configured state then ([], Inl (HTTPException 400))
      else
        (case resolve_vs_id state request of
           None \<Rightarrow> ([], Inl (HTTPException 400))
         | Some v \<Rightarrow>
            (if v = [] then ([], Inl (HTTPException 400))
             else
               (case search v (q_query request) of
                  Inl e \<Rightarrow> ([], Inl (to_http e))
                | Inr search_data \<Rightarrow>
                   (case query_body retrieve generate request search_data of
                      (calls, Inl e) \<Rightarrow> (calls, Inl (to_http e))
                    | (calls, Inr r) \<Rightarrow> (calls, Inr r))))))"

section \<open>Properties\<close>

subsection \<open>Text of a hit\<close>

lemma as_strs_non_str:
  "x \<in> set xs \<Longrightarrow> (\<forall>s. x \<noteq> JStr s) \<Longrightarrow> as_strs xs = Inl TypeError"
proof (induction xs rule: as_strs.induct)
  case 1
  then show ?case by simp
next
  case (2 s xs)
  then show ?case by (auto split: sum.splits)
qed simp_all

lemma snippets_from_abort:
  "hit \<in> set hits \<Longrightarrow> extract_text_from_hit hit = Inl e \<Longrightarrow>
   \<exists>e'. snippets_from F inc i hits = Inl e'"
proof (induction hits arbitrary: i)
  case Nil
  then show ?case by simp
next
  case (Cons h hs)
  show ?case
  proof (cases "h = hit")
    case True
    with Cons.prems show ?thesis by simp
  next
    case False
    with Cons.prems have "hit \<in> set hs" by simp
    from Cons.IH[OF this Cons.prems(2)] obtain e' where
      "snippets_from F inc (Suc i) hs = Inl e'" by blast
    then show ?thesis by (auto split: sum.splits)
  qed
qed

text \<open>
  Claim C9. \<open>extract_text_from_hit\<close> of \<open>vector_search.py\<close> appends \<open>part["text"]\<close>
  without checking that it is a string. For a hit with a content part whose \<open>text\<close>
  field is not a string (such as the nested shape \<open>{"text": {"value": ...}}\<close>) the join
  raises \<open>TypeError\<close>: the hit is not dropped, and \<open>extract_context\<close> on any result list
  that holds this hit raises as well.
\<close>

theorem non_string_text_aborts:
  assumes "map_of kvs ''content'' = Some (JList parts)"
    and "JDict p \<in> set parts"
    and "map_of p ''text'' = Some v"
    and "\<forall>s. v \<noteq> JStr s"
    and "JDict kvs \<in> set hits"
  shows "extract_text_from_hit (JDict kvs) = Inl TypeError \<and>
         (\<exists>e. extract_context F (JDict [(''data'', JList hits)]) max_chars include_source separator = Inl e)"
proof -
  have "v \<in> set (part_texts (JDict p))"
    using assms(3) by simp
  then have "v \<in> set (concat (map part_texts parts))"
    using assms(2) by (simp del: part_texts.simps) blast
  then have "as_strs (concat (map part_texts parts)) = Inl TypeError"
    using assms(4) by (rule as_strs_non_str)
  then have hit: "extract_text_from_hit (JDict kvs) = Inl TypeError"
    using assms(1) by (simp add: extract_text_from_hit_def py_join_def)
  from snippets_from_abort[OF assms(5) hit] obtain e where
    "snippets_from F include_source 1 hits = Inl e" by blast
  then have "extract_context F (JDict [(''data'', JList hits)]) max_chars include_source separator = Inl e"
    by (simp add: extract_context_def)
  with hit show ?thesis by blast
qed

theorem non_string_text_aborts_witness:
  "extract_text_from_hit
     (JDict [(''content'', JList [JDict [(''type'', JStr ''text''),
                                         (''text'', JDict [(''value'', JStr ''hello'')])]])])
     = Inl TypeError \<and>
   (\<exists>e. extract_context \<lparr> fmt2f = (\<lambda>q. []), str_of = (\<lambda>v. []) \<rparr>
          (JDict [(''data'', JList [JDict [(''content'', JList [JDict [(''type'', JStr ''text''),
                                         (''text'', JDict [(''value'', JStr ''hello'')])]])]])])
          8000 True default_separator = Inl e)"
  using non_string_text_aborts [of
      "[(''content'', JList [JDict [(''type'', JStr ''text''),
                                   (''text'', JDict [(''value'', JStr ''hello'')])]])]"
      "[JDict [(''type'', JStr ''text''), (''text'', JDict [(''value'', JStr ''hello'')])]]"
      "[(''type'', JStr ''text''), (''text'', JDict [(''value'', JStr ''hello'')])]"
      "JDict [(''value'', JStr ''hello'')]"
      "[JDict [(''content'', JList [JDict [(''type'', JStr ''text''),
                                         (''text'', JDict [(''value'', JStr ''hello'')])]])]]"
      "\<lparr> fmt2f = (\<lambda>q. []), str_of = (\<lambda>v. []) \<rparr>" 8000 True default_separator]
  by simp

lemma part_texts_api_shapes:
  "map_of kvs ''text'' = Some (JStr s) \<Longrightarrow> part_texts_api (JDict kvs) = [s]"
  "map_of kvs ''text'' = Some (JDict tv) \<Longrightarrow> map_of tv ''value'' = Some (JStr s) \<Longrightarrow>
     part_texts_api (JDict kvs) = [s]"
  "map_of kvs ''text'' = None \<Longrightarrow> map_of kvs ''type'' = Some (JStr ''text'') \<Longrightarrow>
     map_of kvs ''value'' = Some (JStr s) \<Longrightarrow> part_texts_api (JDict kvs) = [s]"
  by (simp_all add: typed_value_def)

text \<open>
  Claim C3. The claim asks that each content part be read by trying a direct string
  field, then a nested object with a string value field, then a typed object tagging the
  string. The handler of \<open>backend/api.py\<close> does so; \<open>extract_text_from_hit\<close> of
  \<open>vector_search.py\<close> does not: on the part \<open>{"type": "text", "value": "hello"}\<close> it
  returns the empty text, where the handler's extraction returns \<open>hello\<close>.
\<close>

theorem typed_value_part_lost:
  "extract_text_from_hit
     (JDict [(''content'', JList [JDict [(''type'', JStr ''text''), (''value'', JStr ''hello'')]])])
     = Inr [] \<and>
   extract_text_from_hit_api
     (JDict [(''content'', JList [JDict [(''type'', JStr ''text''), (''value'', JStr ''hello'')]])])
     = Inr ''hello''"
  by code_simp

subsection \<open>Batches\<close>

lemma wait_loop_skip:
  assumes "n = 0 \<or> 0 \<le> iv"
    and "\<forall>j<n. clock (k + j) < t \<and>
           (case poll (k + j) of Inl e \<Rightarrow> False | Inr b \<Rightarrow> \<not> terminal (status b))"
  shows "wait_loop (n + fuel) t iv clock poll k cur =
         wait_loop fuel t iv clock poll (k + n)
           (if n = 0 then cur else (case poll (k + n - 1) of Inr b \<Rightarrow> Some b | Inl e \<Rightarrow> None))"
  using assms
proof (induction n arbitrary: k cur)
  case 0
  then show ?case by simp
next
  case (Suc n)
  from Suc.prems have iv: "0 \<le> iv" by simp
  from Suc.prems(2) have c0: "clock k < t"
    and p0: "case poll k of Inl e \<Rightarrow> False | Inr b \<Rightarrow> \<not> terminal (status b)"
    by force+
  from p0 obtain b where b: "poll k = Inr b" "\<not> terminal (status b)"
    by (auto split: sum.splits)
  have rest: "\<forall>j<n. clock (Suc k + j) < t \<and>
           (case poll (Suc k + j) of Inl e \<Rightarrow> False | Inr b \<Rightarrow> \<not> terminal (status b))"
  proof (intro allI impI)
    fix j assume "j < n"
    then have "Suc j < Suc n" by simp
    with Suc.prems(2) have "clock (k + Suc j) < t \<and>
           (case poll (k + Suc j) of Inl e \<Rightarrow> False | Inr b \<Rightarrow> \<not> terminal (status b))"
      by blast
    then show "clock (Suc k + j) < t \<and>
           (case poll (Suc k + j) of Inl e \<Rightarrow> False | Inr b \<Rightarrow> \<not> terminal (status b))"
      by simp
  qed
  have step: "wait_loop (Suc n + fuel) t iv clock poll k cur =
              wait_loop (n + fuel) t iv clock poll (Suc k) (Some b)"
    using c0 b iv by (simp add: terminal_def)
  have "wait_loop (n + fuel) t iv clock poll (Suc k) (Some b) =
        wait_loop fuel t iv clock poll (Suc k + n)
           (if n = 0 then Some b
            else (case poll (Suc k + n - 1) of Inr b \<Rightarrow> Some b | Inl e \<Rightarrow> None))"
    using iv rest by (intro Suc.IH) simp_all
  with step b(1) show ?case by (cases n) simp_all
qed

lemma reached_run:
  assumes "reached t iv clock poll n"
  shows "wait_for_batch (n + fuel) t iv clock poll =
         wait_loop fuel t iv clock poll n
           (if n = 0 then None else (case poll (n - 1) of Inr b \<Rightarrow> Some b | Inl e \<Rightarrow> None))"
proof -
  from assms have a: "n = 0 \<or> 0 \<le> iv"
    and b: "\<forall>j<n. clock (0 + j) < t \<and>
           (case poll (0 + j) of Inl e \<Rightarrow> False | Inr b \<Rightarrow> \<not> terminal (status b))"
    by (simp_all add: reached_def)
  from wait_loop_skip[OF a b, of fuel None] show ?thesis
    by (simp add: wait_for_batch_def)
qed

text \<open>
  Claim C10. When the timeout check of \<open>wait_for_batch\<close> fires at the first iteration
  (the first reading of the elapsed time is already at or above \<open>timeout_seconds\<close>, as
  with \<open>timeout_seconds \<le> 0\<close>), the message of the \<open>TimeoutError\<close> reads the local
  \<open>batch\<close> before any poll has assigned it, and the call fails with
  \<open>UnboundLocalError\<close> instead.
\<close>

theorem first_check_timeout_unbound:
  "timeout_seconds \<le> clock 0 \<Longrightarrow>
   wait_for_batch (Suc fuel) timeout_seconds poll_interval clock poll = Some (Inl UnboundLocalError)"
  by (simp add: wait_for_batch_def)

theorem first_check_timeout_unbound_witness:
  "(0::int) \<le> (\<lambda>k. 0) (0::nat) \<and>
   wait_for_batch (Suc 0) 0 5 (\<lambda>k. 0) (\<lambda>k. Inr \<lparr> batch_id = ''b'', status = ''in_progress'', counts = None \<rparr>)
     = Some (Inl UnboundLocalError)"
  using first_check_timeout_unbound [of 0 "\<lambda>k. 0" 0 5
      "\<lambda>k. Inr \<lparr> batch_id = ''b'', status = ''in_progress'', counts = None \<rparr>"]
  by simp


text \<open>
  Claim C5. Every poll that \<open>wait_for_batch\<close> observes with the status \<open>completed\<close>
  makes it return \<open>completed\<close>, whatever the file counts of the batch are (in
  particular with \<open>failed > 0\<close>).
\<close>

theorem completed_despite_failed_files:
  assumes "reached timeout_seconds poll_interval clock poll k"
    and "clock k < timeout_seconds"
    and "poll k = Inr b"
    and "status b = ''completed''"
    and "k < fuel"
  shows "wait_for_batch fuel timeout_seconds poll_interval clock poll = Some (Inr ''completed'')"
proof -
  from assms(5) obtain f where f: "fuel = k + Suc f"
    by (metis less_imp_Suc_add add_Suc_right)
  show ?thesis
    unfolding f reached_run[OF assms(1)]
    using assms(2,3,4) by simp
qed

theorem completed_despite_failed_files_witness:
  "reached 300 5 (\<lambda>k. 5 * int k)
     (\<lambda>k. if k = 0 then Inr \<lparr> batch_id = ''b1'', status = ''in_progress'', counts = None \<rparr>
          else Inr \<lparr> batch_id = ''b1'', status = ''completed'',
                     counts = Some \<lparr> completed = 1, in_progress = 0, failed = 1, cancelled = 0 \<rparr> \<rparr>) 1 \<and>
   wait_for_batch 2 300 5 (\<lambda>k. 5 * int k)
     (\<lambda>k. if k = 0 then Inr \<lparr> batch_id = ''b1'', status = ''in_progress'', counts = None \<rparr>
          else Inr \<lparr> batch_id = ''b1'', status = ''completed'',
                     counts = Some \<lparr> completed = 1, in_progress = 0, failed = 1, cancelled = 0 \<rparr> \<rparr>)
     = Some (Inr ''completed'')"
proof -
  let ?poll = "\<lambda>k::nat. if k = 0 then Inr \<lparr> batch_id = ''b1'', status = ''in_progress'', counts = None \<rparr>
          else Inr \<lparr> batch_id = ''b1'', status = ''completed'',
                     counts = Some \<lparr> completed = 1, in_progress = 0, failed = 1, cancelled = 0 \<rparr> \<rparr>"
  let ?b = "\<lparr> batch_id = ''b1'', status = ''completed'',
                     counts = Some \<lparr> completed = 1, in_progress = 0, failed = 1, cancelled = 0 \<rparr> \<rparr>"
  have r: "reached 300 5 (\<lambda>k. 5 * int k) ?poll 1"
    by (simp add: reached_def terminal_def)
  have c: "(\<lambda>k. 5 * int k) (1::nat) < 300" by simp
  have p: "?poll 1 = Inr ?b" by simp
  have s: "status ?b = ''completed''" by simp
  have "wait_for_batch 2 300 5 (\<lambda>k. 5 * int k) ?poll = Some (Inr ''completed'')"
    by (rule completed_despite_failed_files[OF r c p s]) simp
  with r show ?thesis by blast
qed

text \<open>
  Claim C6, as amended. When the loop of \<open>wait_for_batch\<close> reaches an iteration \<open>n\<close>
  (all earlier polls returned a batch that was not terminal, the sleep did not raise):
  if the elapsed time read there has reached the timeout and at least one poll has been
  made, the call fails with the \<open>TimeoutError\<close> that carries the timeout and the status
  of the last poll (not its counts); if the elapsed time is below the timeout and the
  poll returns a terminal status, that status is returned at once. In both cases the
  loop has returned within \<open>n + 1\<close> iterations.
\<close>

theorem wait_timeout_or_terminal:
  assumes "reached timeout_seconds poll_interval clock poll n"
    and "n < fuel"
  shows "(timeout_seconds \<le> clock n \<and> 0 < n \<longrightarrow>
            (\<exists>b. poll (n - 1) = Inr b \<and>
                 wait_for_batch fuel timeout_seconds poll_interval clock poll
                   = Some (Inl (TimeoutError timeout_seconds (status b))))) \<and>
         (clock n < timeout_seconds \<longrightarrow>
            (\<forall>b. poll n = Inr b \<and> terminal (status b) \<longrightarrow>
                 wait_for_batch fuel timeout_seconds poll_interval clock poll
                   = Some (Inr (status b))))"
proof -
  from assms(2) obtain f where f: "fuel = n + Suc f"
    by (metis less_imp_Suc_add add_Suc_right)
  have run: "wait_for_batch fuel timeout_seconds poll_interval clock poll =
         wait_loop (Suc f) timeout_seconds poll_interval clock poll n
           (if n = 0 then None else (case poll (n - 1) of Inr b \<Rightarrow> Some b | Inl e \<Rightarrow> None))"
    unfolding f by (rule reached_run[OF assms(1)])
  have timeout_case: "\<exists>b. poll (n - 1) = Inr b \<and>
                 wait_for_batch fuel timeout_seconds poll_interval clock poll
                   = Some (Inl (TimeoutError timeout_seconds (status b)))"
    if t: "timeout_seconds \<le> clock n" and pos: "0 < n"
  proof -
    from pos have "n - 1 \<in> set [0..<n]" by simp
    with assms(1) have "case poll (n - 1) of Inl e \<Rightarrow> False | Inr b \<Rightarrow> \<not> terminal (status b)"
      unfolding reached_def by blast
    then obtain b where b: "poll (n - 1) = Inr b" by (auto split: sum.splits)
    with run t pos show ?thesis by simp
  qed
  have terminal_case: "wait_for_batch fuel timeout_seconds poll_interval clock poll = Some (Inr (status b))"
    if "clock n < timeout_seconds" "poll n = Inr b" "terminal (status b)" for b
    using that run by (auto simp: terminal_def)
  from timeout_case terminal_case show ?thesis by blast
qed


theorem wait_timeout_or_terminal_witness:
  "(reached 10 5 (\<lambda>k. 5 * int k)
      (\<lambda>k. Inr \<lparr> batch_id = ''b1'', status = ''in_progress'', counts = None \<rparr>) 2 \<and>
    (2::nat) < 3 \<and> (10::int) \<le> (\<lambda>k. 5 * int k) 2 \<and> (0::nat) < 2 \<and>
    wait_for_batch 3 10 5 (\<lambda>k. 5 * int k)
      (\<lambda>k. Inr \<lparr> batch_id = ''b1'', status = ''in_progress'', counts = None \<rparr>)
      = Some (Inl (TimeoutError 10 ''in_progress''))) \<and>
   (reached 10 5 (\<lambda>k. 5 * int k)
      (\<lambda>k. Inr \<lparr> batch_id = ''b1'', status = ''failed'', counts = None \<rparr>) 0 \<and>
    (0::nat) < 1 \<and> (\<lambda>k. 5 * int k) 0 < (10::int) \<and> terminal ''failed'' \<and>
    wait_for_batch 1 10 5 (\<lambda>k. 5 * int k)
      (\<lambda>k. Inr \<lparr> batch_id = ''b1'', status = ''failed'', counts = None \<rparr>)
      = Some (Inr ''failed''))"
proof -
  let ?clock = "\<lambda>k::nat. 5 * int k"
  let ?p1 = "\<lambda>k::nat. (Inr \<lparr> batch_id = ''b1'', status = ''in_progress'', counts = None \<rparr> :: error + batch)"
  let ?p2 = "\<lambda>k::nat. (Inr \<lparr> batch_id = ''b1'', status = ''failed'', counts = None \<rparr> :: error + batch)"
  have r1: "reached 10 5 ?clock ?p1 2"
    by (simp add: reached_def terminal_def)
  have r2: "reached 10 5 ?clock ?p2 0"
    by (simp add: reached_def)
  have t: "terminal ''failed''" by (simp add: terminal_def)
  have a: "wait_for_batch 3 10 5 ?clock ?p1 = Some (Inl (TimeoutError 10 ''in_progress''))"
    using wait_timeout_or_terminal[OF r1, of 3] by simp
  have b: "wait_for_batch 1 10 5 ?clock ?p2 = Some (Inr ''failed'')"
    using wait_timeout_or_terminal[OF r2, of 1] t by simp
  from r1 r2 t a b show ?thesis by simp
qed

text \<open>
  Claim C6 as stated asks the \<open>Timeout\<close> error to carry the last-known status and the
  counts. Two runs that differ only in the counts of the batch polled raise the same
  error: the counts are not in it.
\<close>

theorem timeout_error_without_counts:
  "wait_for_batch 3 10 5 (\<lambda>k. 5 * int k)
     (\<lambda>k. Inr \<lparr> batch_id = ''b1'', status = ''in_progress'',
                counts = Some \<lparr> completed = 1, in_progress = 1, failed = 0, cancelled = 0 \<rparr> \<rparr>)
     = Some (Inl (TimeoutError 10 ''in_progress'')) \<and>
   wait_for_batch 3 10 5 (\<lambda>k. 5 * int k)
     (\<lambda>k. Inr \<lparr> batch_id = ''b1'', status = ''in_progress'',
                counts = Some \<lparr> completed = 0, in_progress = 1, failed = 1, cancelled = 0 \<rparr> \<rparr>)
     = Some (Inl (TimeoutError 10 ''in_progress'')) \<and>
   Some \<lparr> completed = 1, in_progress = 1, failed = 0, cancelled = 0 \<rparr>
     \<noteq> Some \<lparr> completed = 0, in_progress = 1, failed = 1, cancelled = 0 \<rparr>"
  by (simp add: wait_for_batch_def numeral_3_eq_3)

text \<open>
  Claim C4 as stated asks \<open>create_file_batch\<close> to fail with \<open>InvalidRequest\<close> on an empty
  \<open>file_ids\<close> without submitting. The function has no such check: the request with the
  empty list is submitted, and the id the provider answers is returned.
\<close>

theorem empty_batch_is_submitted:
  "create_file_batch
     (\<lambda>p. Inr \<lparr> batch_id = ''vsfb_1'', status = ''in_progress'', counts = None \<rparr>)
     ''vs_1'' [] None
   = ([\<lparr> p_vector_store_id = ''vs_1'', p_file_ids = [], p_chunking_strategy = None \<rparr>],
      Inr ''vsfb_1'')"
  by (simp add: create_file_batch_def)

text \<open>
  Claim C4, as amended. For every \<open>file_ids\<close>, empty or not, \<open>create_file_batch\<close> submits
  exactly one request to the provider, with the vector store id and the \<open>file_ids\<close> as
  given, and returns the id of the batch the provider answers; it raises only what the
  provider raises.
\<close>

theorem create_file_batch_passes_through:
  "\<exists>req. p_vector_store_id req = vs_id \<and> p_file_ids req = file_ids \<and>
         create_file_batch provider_create vs_id file_ids chunking_strategy
           = ([req], (case provider_create req of Inl e \<Rightarrow> Inl e | Inr b \<Rightarrow> Inr (batch_id b)))"
  by (simp add: create_file_batch_def Let_def)

subsection \<open>The assembled context\<close>

lemma render_block_shape:
  assumes "render_block F inc i hit t = Inr blk"
  shows "if inc
         then \<exists>fv sv sc. py_get hit ''filename'' (JStr ''unknown'') = Inr fv \<and>
                py_get hit ''score'' (JNum 0) = Inr sv \<and> fmt_score F sv = Inr sc \<and>
                blk = ''[KB#'' @ str_nat i @ '' - '' @ fmt_str F fv @ '' (score: '' @ sc @ '')]''
                        @ ''\<newline>'' @ t
         else blk = ''[KB#'' @ str_nat i @ '']'' @ ''\<newline>'' @ t"
proof (cases inc)
  case True
  with assms obtain fv sv sc where
    "py_get hit ''filename'' (JStr ''unknown'') = Inr fv"
    "py_get hit ''score'' (JNum 0) = Inr sv" "fmt_score F sv = Inr sc"
    "blk = ''[KB#'' @ str_nat i @ '' - '' @ fmt_str F fv @ '' (score: '' @ sc @ '')]''
                        @ ''\<newline>'' @ t"
    unfolding render_block_def by (simp split: sum.splits)
  with True show ?thesis by simp
next
  case False
  with assms show ?thesis unfolding render_block_def by simp
qed

lemma filter_upt_Suc:
  "filter P [0..<Suc n] = (if P 0 then [0] else []) @ map Suc (filter (\<lambda>p. P (Suc p)) [0..<n])"
proof -
  have "[0..<Suc n] = 0 # map Suc [0..<n]"
    by (metis map_Suc_upt upt_conv_Cons zero_less_Suc)
  then show ?thesis by (simp add: filter_map comp_def del: upt_Suc)
qed

lemma snippets_from_positions:
  "snippets_from F inc i hits = Inr blocks \<Longrightarrow>
   list_all2 (\<lambda>p blk. \<exists>t. extract_text_from_hit (hits ! p) = Inr t \<and> t \<noteq> [] \<and>
                 render_block F inc (i + p) (hits ! p) t = Inr blk)
     (filter (\<lambda>p. extract_text_from_hit (hits ! p) \<noteq> Inr []) [0..<length hits]) blocks"
proof (induction hits arbitrary: i blocks)
  case Nil
  then show ?case by simp
next
  case (Cons h hs)
  from Cons.prems obtain t where t: "extract_text_from_hit h = Inr t"
    by (auto split: sum.splits)
  show ?case
  proof (cases "t = []")
    case True
    with Cons.prems t have "snippets_from F inc (Suc i) hs = Inr blocks" by simp
    from Cons.IH[OF this] True t show ?thesis
      by (simp add: filter_upt_Suc list_all2_map1 del: upt_Suc)
  next
    case False
    with Cons.prems t obtain blk rest where
      blk: "render_block F inc i h t = Inr blk"
      and rest: "snippets_from F inc (Suc i) hs = Inr rest"
      and blocks: "blocks = blk # rest"
      by (auto split: sum.splits)
    from Cons.IH[OF rest] False t blk blocks show ?thesis
      by (simp add: filter_upt_Suc list_all2_map1 del: upt_Suc)
  qed
qed

text \<open>
  Claim C7, as amended. \<open>extract_context\<close> renders one block for each hit with text, in
  the order of the hits. The number in the label of a block is the 1-based position of
  its hit in the whole hit sequence (\<open>enumerate(..., start=1)\<close>), so a dropped hit leaves
  a gap in the numbering. The block is
  \<open>"[KB#<position> - <filename> (score: <score>)]\n<text>"\<close> when \<open>include_source\<close> is
  true and \<open>"[KB#<position>]\n<text>"\<close> otherwise; the output is the join of the blocks,
  truncated as a whole.
\<close>

theorem blocks_numbered_by_position:
  assumes "py_get search_results ''data'' (JList []) = Inr data"
    and "py_iter data = Inr hits"
    and "extract_context F search_results max_chars include_source separator = Inr out"
  shows "\<exists>blocks.
           out = (if int (length (join separator blocks)) > max_chars
                  then py_prefix (join separator blocks) max_chars @ truncation_marker
                  else join separator blocks) \<and>
           list_all2
             (\<lambda>p blk. \<exists>t. extract_text_from_hit (hits ! p) = Inr t \<and> t \<noteq> [] \<and>
                (if include_source
                 then \<exists>fv sv sc. py_get (hits ! p) ''filename'' (JStr ''unknown'') = Inr fv \<and>
                        py_get (hits ! p) ''score'' (JNum 0) = Inr sv \<and> fmt_score F sv = Inr sc \<and>
                        blk = ''[KB#'' @ str_nat (Suc p) @ '' - '' @ fmt_str F fv
                                @ '' (score: '' @ sc @ '')]'' @ ''\<newline>'' @ t
                 else blk = ''[KB#'' @ str_nat (Suc p) @ '']'' @ ''\<newline>'' @ t))
             (filter (\<lambda>p. extract_text_from_hit (hits ! p) \<noteq> Inr []) [0..<length hits])
             blocks"
proof -
  from assms obtain blocks where
    blocks: "snippets_from F include_source 1 hits = Inr blocks"
    and out: "out = (if int (length (join separator blocks)) > max_chars
                  then py_prefix (join separator blocks) max_chars @ truncation_marker
                  else join separator blocks)"
    by (auto simp: extract_context_def Let_def split: sum.splits)
  have "list_all2
             (\<lambda>p blk. \<exists>t. extract_text_from_hit (hits ! p) = Inr t \<and> t \<noteq> [] \<and>
                 render_block F include_source (1 + p) (hits ! p) t = Inr blk)
             (filter (\<lambda>p. extract_text_from_hit (hits ! p) \<noteq> Inr []) [0..<length hits])
             blocks"
    by (rule snippets_from_positions[OF blocks])
  then have "list_all2
             (\<lambda>p blk. \<exists>t. extract_text_from_hit (hits ! p) = Inr t \<and> t \<noteq> [] \<and>
                (if include_source
                 then \<exists>fv sv sc. py_get (hits ! p) ''filename'' (JStr ''unknown'') = Inr fv \<and>
                        py_get (hits ! p) ''score'' (JNum 0) = Inr sv \<and> fmt_score F sv = Inr sc \<and>
                        blk = ''[KB#'' @ str_nat (Suc p) @ '' - '' @ fmt_str F fv
                                @ '' (score: '' @ sc @ '')]'' @ ''\<newline>'' @ t
                 else blk = ''[KB#'' @ str_nat (Suc p) @ '']'' @ ''\<newline>'' @ t))
             (filter (\<lambda>p. extract_text_from_hit (hits ! p) \<noteq> Inr []) [0..<length hits])
             blocks"
  proof (rule list_all2_mono)
    fix p blk
    assume "\<exists>t. extract_text_from_hit (hits ! p) = Inr t \<and> t \<noteq> [] \<and>
                 render_block F include_source (1 + p) (hits ! p) t = Inr blk"
    then obtain t where t: "extract_text_from_hit (hits ! p) = Inr t" "t \<noteq> []"
      and r: "render_block F include_source (Suc p) (hits ! p) t = Inr blk"
      by auto
    from render_block_shape[OF r] t
    show "\<exists>t. extract_text_from_hit (hits ! p) = Inr t \<and> t \<noteq> [] \<and>
                (if include_source
                 then \<exists>fv sv sc. py_get (hits ! p) ''filename'' (JStr ''unknown'') = Inr fv \<and>
                        py_get (hits ! p) ''score'' (JNum 0) = Inr sv \<and> fmt_score F sv = Inr sc \<and>
                        blk = ''[KB#'' @ str_nat (Suc p) @ '' - '' @ fmt_str F fv
                                @ '' (score: '' @ sc @ '')]'' @ ''\<newline>'' @ t
                 else blk = ''[KB#'' @ str_nat (Suc p) @ '']'' @ ''\<newline>'' @ t)"
      by (intro exI[of _ t]) simp
  qed
  with out show ?thesis by blast
qed

text \<open>
  Claim C7 as stated asks for consecutive numbers over the surviving hits. With a first
  hit that has no text, the second hit is rendered as number 2, not number 1.
\<close>

theorem dropped_hit_consumes_rank:
  "extract_context \<lparr> fmt2f = (\<lambda>q. []), str_of = (\<lambda>v. []) \<rparr>
     (JDict [(''data'', JList [JDict [(''filename'', JStr ''a.md'')],
                               JDict [(''filename'', JStr ''b.md''),
                                      (''content'', JList [JDict [(''text'', JStr ''x'')]])]])])
     8000 False default_separator
   = Inr ''[KB#2]\<newline>x''"
  by code_simp


theorem blocks_numbered_by_position_witness:
  "\<exists>blocks.
     ''[KB#2]\<newline>x'' =
        (if int (length (join default_separator blocks)) > 8000
         then py_prefix (join default_separator blocks) 8000 @ truncation_marker
         else join default_separator blocks) \<and>
     list_all2
       (\<lambda>p blk. \<exists>t. extract_text_from_hit
                        ([JDict [(''filename'', JStr ''a.md'')],
                          JDict [(''filename'', JStr ''b.md''),
                                 (''content'', JList [JDict [(''text'', JStr ''x'')]])]] ! p) = Inr t \<and>
              t \<noteq> [] \<and>
              (if False
               then \<exists>fv sv sc.
                      py_get ([JDict [(''filename'', JStr ''a.md'')],
                               JDict [(''filename'', JStr ''b.md''),
                                      (''content'', JList [JDict [(''text'', JStr ''x'')]])]] ! p)
                        ''filename'' (JStr ''unknown'') = Inr fv \<and>
                      py_get ([JDict [(''filename'', JStr ''a.md'')],
                               JDict [(''filename'', JStr ''b.md''),
                                      (''content'', JList [JDict [(''text'', JStr ''x'')]])]] ! p)
                        ''score'' (JNum 0) = Inr sv \<and>
                      fmt_score \<lparr> fmt2f = (\<lambda>q. []), str_of = (\<lambda>v. []) \<rparr> sv = Inr sc \<and>
                      blk = ''[KB#'' @ str_nat (Suc p) @ '' - ''
                              @ fmt_str \<lparr> fmt2f = (\<lambda>q. []), str_of = (\<lambda>v. []) \<rparr> fv
                              @ '' (score: '' @ sc @ '')]'' @ ''\<newline>'' @ t
               else blk = ''[KB#'' @ str_nat (Suc p) @ '']'' @ ''\<newline>'' @ t))
       (filter (\<lambda>p. extract_text_from_hit
                      ([JDict [(''filename'', JStr ''a.md'')],
                        JDict [(''filename'', JStr ''b.md''),
                               (''content'', JList [JDict [(''text'', JStr ''x'')]])]] ! p) \<noteq> Inr [])
          [0..<length [JDict [(''filename'', JStr ''a.md'')],
                       JDict [(''filename'', JStr ''b.md''),
                              (''content'', JList [JDict [(''text'', JStr ''x'')]])]]])
       blocks"
proof -
  let ?hits = "[JDict [(''filename'', JStr ''a.md'')],
                JDict [(''filename'', JStr ''b.md''),
                       (''content'', JList [JDict [(''text'', JStr ''x'')]])]]"
  let ?F = "\<lparr> fmt2f = (\<lambda>q. []), str_of = (\<lambda>v. []) \<rparr>"
  have a: "py_get (JDict [(''data'', JList ?hits)]) ''data'' (JList []) = Inr (JList ?hits)"
    by simp
  have b: "py_iter (JList ?hits) = Inr ?hits"
    by simp
  have c: "extract_context ?F (JDict [(''data'', JList ?hits)]) 8000 False default_separator
             = Inr ''[KB#2]\<newline>x''"
    by code_simp
  show ?thesis
    by (rule blocks_numbered_by_position[OF a b c])
qed

lemma length_py_prefix: "0 \<le> m \<Longrightarrow> int (length (py_prefix s m)) \<le> m"
  by (simp add: py_prefix_def)

text \<open>
  Claim C8, as amended. Whenever the join of all blocks is at most \<open>max_chars\<close> long,
  the output of \<open>extract_context\<close> is that join exactly. For \<open>max_chars \<ge> 0\<close> the output
  is at most \<open>max_chars\<close> plus the length of the truncation marker long, and a longer
  join is cut as a whole: the output is its first \<open>max_chars\<close> characters followed by
  the marker.
\<close>

theorem context_truncation:
  assumes "extract_context F search_results max_chars include_source separator = Inr out"
  shows "\<exists>data hits blocks.
           py_get search_results ''data'' (JList []) = Inr data \<and>
           py_iter data = Inr hits \<and>
           snippets_from F include_source 1 hits = Inr blocks \<and>
           (int (length (join separator blocks)) \<le> max_chars \<longrightarrow> out = join separator blocks) \<and>
           (0 \<le> max_chars \<longrightarrow>
              int (length out) \<le> max_chars + int (length truncation_marker)) \<and>
           (0 \<le> max_chars \<and> max_chars < int (length (join separator blocks)) \<longrightarrow>
              out = take (nat max_chars) (join separator blocks) @ truncation_marker)"
proof -
  from assms obtain data hits blocks where
    d: "py_get search_results ''data'' (JList []) = Inr data"
    and h: "py_iter data = Inr hits"
    and b: "snippets_from F include_source 1 hits = Inr blocks"
    and out: "out = (if int (length (join separator blocks)) > max_chars
                  then py_prefix (join separator blocks) max_chars @ truncation_marker
                  else join separator blocks)"
    by (auto simp: extract_context_def Let_def split: sum.splits)
  have fits: "out = join separator blocks"
    if "int (length (join separator blocks)) \<le> max_chars"
    using that out by simp
  have bound: "int (length out) \<le> max_chars + int (length truncation_marker)"
    if "0 \<le> max_chars"
  proof (cases "int (length (join separator blocks)) > max_chars")
    case True
    with out have "out = py_prefix (join separator blocks) max_chars @ truncation_marker"
      by simp
    with length_py_prefix[OF that, of "join separator blocks"] show ?thesis by simp
  next
    case False
    with out show ?thesis by simp
  qed
  have cut: "out = take (nat max_chars) (join separator blocks) @ truncation_marker"
    if "0 \<le> max_chars \<and> max_chars < int (length (join separator blocks))"
    using that out by (simp add: py_prefix_def)
  from d h b fits bound cut show ?thesis by blast
qed

theorem context_truncation_witness:
  "extract_context \<lparr> fmt2f = (\<lambda>q. []), str_of = (\<lambda>v. []) \<rparr>
     (JDict [(''data'', JList [JDict [(''content'', JList [JDict [(''text'', JStr ''abcdefgh'')]])]])])
     10 False default_separator
   = Inr (''[KB#1]\<newline>abc'' @ truncation_marker) \<and>
   (0::int) \<le> 10 \<and>
   int (length (''[KB#1]\<newline>abc'' @ truncation_marker)) \<le> 10 + int (length truncation_marker)"
proof -
  have c: "extract_context \<lparr> fmt2f = (\<lambda>q. []), str_of = (\<lambda>v. []) \<rparr>
             (JDict [(''data'', JList [JDict [(''content'', JList [JDict [(''text'', JStr ''abcdefgh'')]])]])])
             10 False default_separator
           = Inr (''[KB#1]\<newline>abc'' @ truncation_marker)"
    by code_simp
  from context_truncation[OF c]
  have "(0::int) \<le> 10 \<longrightarrow>
        int (length (''[KB#1]\<newline>abc'' @ truncation_marker)) \<le> 10 + int (length truncation_marker)"
    by blast
  with c show ?thesis by simp
qed

text \<open>
  Claim C8 as stated bounds the length for every \<open>max_chars\<close>. With \<open>max_chars = -1\<close>
  the slice \<open>context[:-1]\<close> drops only the last character, and the output is longer
  than \<open>max_chars\<close> plus the length of the marker.
\<close>

theorem negative_budget_exceeds_bound:
  "\<exists>out. extract_context \<lparr> fmt2f = (\<lambda>q. []), str_of = (\<lambda>v. []) \<rparr>
            (JDict [(''data'', JList [JDict [(''content'', JList [JDict [(''text'', JStr ''abc'')]])]])])
            (- 1) False default_separator = Inr out \<and>
         \<not> int (length out) \<le> (- 1) + int (length truncation_marker)"
proof -
  have "extract_context \<lparr> fmt2f = (\<lambda>q. []), str_of = (\<lambda>v. []) \<rparr>
            (JDict [(''data'', JList [JDict [(''content'', JList [JDict [(''text'', JStr ''abc'')]])]])])
            (- 1) False default_separator = Inr (''[KB#1]\<newline>ab'' @ truncation_marker)"
    by code_simp
  then show ?thesis by simp
qed

subsection \<open>Answers and their sources\<close>

lemma extract_text_dict:
  "extract_text_from_hit hit = Inr t \<Longrightarrow> \<exists>kvs. hit = JDict kvs"
  by (cases hit) (simp_all add: extract_text_from_hit_def)

lemma snippets_from_filenames:
  "snippets_from F inc i hits = Inr blocks \<Longrightarrow> \<exists>fs. hit_filenames hits = Inr fs"
proof (induction hits arbitrary: i blocks)
  case Nil
  then show ?case by simp
next
  case (Cons h hs)
  from Cons.prems obtain t where t: "extract_text_from_hit h = Inr t"
    by (auto split: sum.splits)
  then obtain kvs where h: "h = JDict kvs"
    using extract_text_dict by blast
  from Cons.prems t obtain rest where "snippets_from F inc (Suc i) hs = Inr rest"
    by (auto split: sum.splits if_splits)
  from Cons.IH[OF this] obtain fs where "hit_filenames hs = Inr fs" by blast
  with h show ?case by simp
qed

lemma hit_filenames_nth:
  "hit_filenames hits = Inr fs \<Longrightarrow>
   length fs = length hits \<and>
   (\<forall>n<length hits. py_get (hits ! n) ''filename'' (JStr ''unknown'') = Inr (fs ! n))"
proof (induction hits arbitrary: fs)
  case Nil
  then show ?case by simp
next
  case (Cons h hs)
  from Cons.prems obtain f rest where
    f: "py_get h ''filename'' (JStr ''unknown'') = Inr f"
    and rest: "hit_filenames hs = Inr rest"
    and fs: "fs = f # rest"
    by (auto split: sum.splits)
  from Cons.IH[OF rest] f fs show ?case
    by (auto simp: nth_Cons split: nat.splits)
qed







lemma query_step_srcs:
  assumes "query_step retrieve i hit st = Inr st'"
  shows "srcs st' = srcs st \<or>
         (\<exists>fid f. py_get hit ''file_id'' JNull = Inr fid \<and> retrieve fid = Inr f \<and>
                  f \<notin> set (srcs st) \<and> srcs st' = srcs st @ [f])"
proof (cases "py_get hit ''file_id'' JNull")
  case (Inl e)
  with assms show ?thesis by (simp add: query_step_def)
next
  case fid: (Inr fid)
  show ?thesis
  proof (cases "extract_text_from_hit_api hit")
    case (Inl e)
    with assms fid show ?thesis by (simp add: query_step_def)
  next
    case tx: (Inr tx)
    define st1 where
      "st1 = st\<lparr> chunks := chunks st @ [''[Chunk #'' @ str_nat i @ '']'' @ ''\<newline>'' @ tx] \<rparr>"
    have s1: "srcs st1 = srcs st" by (simp add: st1_def)
    have step: "query_step retrieve i hit st =
       (if tx = [] then Inr st
        else if \<not> truthy fid then Inr st1
        else if \<not> hashable fid then Inl TypeError
        else if key_in fid (file_id_keys st1) then Inr st1
        else (case retrieve fid of
                Inl e \<Rightarrow> Inr st1
              | Inr filename \<Rightarrow>
                  Inr (st1\<lparr> file_id_keys := file_id_keys st1 @ [fid],
                            srcs := (if filename \<in> set (srcs st1) then srcs st1
                                     else srcs st1 @ [filename]) \<rparr>)))"
      unfolding query_step_def st1_def fid tx by (simp only: sum.case Let_def)
    consider (same) "st' = st \<or> st' = st1"
      | (looked) f where "retrieve fid = Inr f"
          "st' = st1\<lparr> file_id_keys := file_id_keys st1 @ [fid],
                     srcs := (if f \<in> set (srcs st1) then srcs st1 else srcs st1 @ [f]) \<rparr>"
      using assms unfolding step by (cases "retrieve fid") (simp_all split: if_splits)
    then show ?thesis
    proof cases
      case same
      with s1 show ?thesis by auto
    next
      case looked
      show ?thesis
      proof (cases "f \<in> set (srcs st)")
        case True
        with looked s1 show ?thesis by simp
      next
        case False
        with looked s1 fid show ?thesis by simp
      qed
    qed
  qed
qed

lemma query_loop_srcs:
  "query_loop retrieve i hits st = Inr st' \<Longrightarrow> distinct (srcs st) \<Longrightarrow>
   distinct (srcs st') \<and>
   (\<exists>new. srcs st' = srcs st @ new \<and> length new \<le> length hits \<and>
      (\<forall>f\<in>set new. \<exists>h\<in>set hits. \<exists>fid.
          py_get h ''file_id'' JNull = Inr fid \<and> retrieve fid = Inr f))"
proof (induction hits arbitrary: i st)
  case Nil
  then show ?case by simp
next
  case (Cons h hs)
  from Cons.prems(1) obtain st1 where
    step: "query_step retrieve i h st = Inr st1"
    and rest: "query_loop retrieve (Suc i) hs st1 = Inr st'"
    by (auto split: sum.splits)
  from query_step_srcs[OF step] obtain new1 where
    new1: "srcs st1 = srcs st @ new1" "length new1 \<le> 1" "distinct (srcs st1)"
      "\<forall>f\<in>set new1. \<exists>fid. py_get h ''file_id'' JNull = Inr fid \<and> retrieve fid = Inr f"
  proof (elim disjE exE conjE)
    assume "srcs st1 = srcs st"
    with Cons.prems(2) show ?thesis by (intro that[of "[]"]) simp_all
  next
    fix fid f
    assume "py_get h ''file_id'' JNull = Inr fid" "retrieve fid = Inr f"
      "f \<notin> set (srcs st)" "srcs st1 = srcs st @ [f]"
    with Cons.prems(2) show ?thesis by (intro that[of "[f]"]) auto
  qed
  from Cons.IH[OF rest new1(3)] obtain new2 where
    d: "distinct (srcs st')"
    and new2: "srcs st' = srcs st1 @ new2" "length new2 \<le> length hs"
      "\<forall>f\<in>set new2. \<exists>h\<in>set hs. \<exists>fid.
          py_get h ''file_id'' JNull = Inr fid \<and> retrieve fid = Inr f"
    by blast
  have "srcs st' = srcs st @ (new1 @ new2)"
    using new1(1) new2(1) by simp
  moreover have "length (new1 @ new2) \<le> length (h # hs)"
    using new1(2) new2(2) by simp
  moreover have "\<forall>f\<in>set (new1 @ new2). \<exists>h'\<in>set (h # hs). \<exists>fid.
          py_get h' ''file_id'' JNull = Inr fid \<and> retrieve fid = Inr f"
    using new1(4) new2(3) by auto
  ultimately show ?case using d by blast
qed

lemma slice10_iter_length:
  "slice10 data = Inr top10 \<Longrightarrow> py_iter top10 = Inr hits \<Longrightarrow> length hits \<le> 10"
  by (cases data) auto

lemma query_context_sources:
  assumes "query_context retrieve search_data = Inr (ctx, found)"
  shows "\<exists>data top10 hits.
           py_get search_data ''data'' (JList []) = Inr data \<and> slice10 data = Inr top10 \<and>
           py_iter top10 = Inr hits \<and> length hits \<le> 10 \<and>
           distinct found \<and> length found \<le> length hits \<and>
           (\<forall>f\<in>set found. \<exists>h\<in>set hits. \<exists>fid.
               py_get h ''file_id'' JNull = Inr fid \<and> retrieve fid = Inr f)"
proof -
  from assms obtain data top10 hits st where
    d: "py_get search_data ''data'' (JList []) = Inr data"
    and t: "slice10 data = Inr top10"
    and h: "py_iter top10 = Inr hits"
    and l: "query_loop retrieve 1 hits \<lparr> chunks = [], srcs = [], file_id_keys = [] \<rparr> = Inr st"
    and f: "found = srcs st"
    unfolding query_context_def by (auto split: sum.splits)
  from query_loop_srcs[OF l] f have
    "distinct found \<and> length found \<le> length hits \<and>
     (\<forall>f\<in>set found. \<exists>h\<in>set hits. \<exists>fid.
               py_get h ''file_id'' JNull = Inr fid \<and> retrieve fid = Inr f)"
    by auto
  with d t h slice10_iter_length[OF t h] show ?thesis by blast
qed



lemma rag_answer_sources:
  assumes "rag_answer F search_vs generate self q ac = (calls, Inr r)"
  shows "\<exists>results data hits.
           search_vs (vector_store_id self) q (max_results self) = Inr results \<and>
           py_get results ''data'' (JList []) = Inr data \<and> py_iter data = Inr hits \<and>
           hit_filenames hits = Inr (r_sources r)"
proof (cases "search_vs (vector_store_id self) q (max_results self)")
  case (Inl e)
  with assms show ?thesis by (simp add: rag_answer_def)
next
  case res: (Inr results)
  show ?thesis
  proof (cases "extract_context F results (max_context_chars self) True default_separator")
    case (Inl e)
    with assms res show ?thesis by (simp add: rag_answer_def)
  next
    case ctx: (Inr ctx)
    then obtain data hits blocks where
      d: "py_get results ''data'' (JList []) = Inr data"
      and h: "py_iter data = Inr hits"
      and b: "snippets_from F True 1 hits = Inr blocks"
      by (auto simp: extract_context_def split: sum.splits)
    from snippets_from_filenames[OF b] obtain fs where fs: "hit_filenames hits = Inr fs"
      by blast
    from assms res ctx d h fs have "r_sources r = fs"
      by (cases "generate \<lparr> g_model = model self, g_messages = answer_messages self ctx q ac \<rparr>")
         (auto simp: rag_answer_def Let_def)
    with res d h fs show ?thesis by blast
  qed
qed

lemma query_rag_sources:
  assumes "query_rag state search retrieve generate request = (calls, Inr resp)"
  shows "\<exists>v sd ctx found.
           resolve_vs_id state request = Some v \<and> search v (q_query request) = Inr sd \<and>
           query_context retrieve sd = Inr (ctx, found) \<and>
           (sources resp = [] \<or> sources resp = found)"
proof -
  from assms obtain v where v: "resolve_vs_id state request = Some v"
    and conf: "client_configured state" "v \<noteq> []"
    by (auto simp: query_rag_def split: if_splits option.splits)
  from assms v conf obtain sd where sd: "search v (q_query request) = Inr sd"
    by (cases "search v (q_query request)") (auto simp: query_rag_def)
  from assms v conf sd have body: "query_body retrieve generate request sd = (calls, Inr resp)"
    by (auto simp: query_rag_def split: prod.splits sum.splits)
  then obtain ctx found where qc: "query_context retrieve sd = Inr (ctx, found)"
    by (cases "query_context retrieve sd") (auto simp: query_body_def)
  from body qc have "sources resp = [] \<or> sources resp = found"
    by (cases "generate \<lparr> g_model = q_model request,
                           g_messages = query_messages ctx (q_query request) \<rparr>")
       (auto simp: query_body_def Let_def split: if_splits)
  with v sd qc show ?thesis by blast
qed

text \<open>
  Claim C2, as amended. \<open>RAGAssistant.answer\<close>: the sources hold exactly one entry for
  each hit, in hit order, the \<open>filename\<close> of the hit or \<open>"unknown"\<close> when the field is
  missing; repeated filenames are kept. The handler of \<open>/api/query\<close>: the sources have no
  duplicate, are at most as many as the hits considered (the first ten), and each entry
  is the filename that the file lookup of the provider returned for the \<open>file_id\<close> of
  one of these hits.
\<close>

theorem sources_of_both_paths:
  "(rag_answer F search_vs generate_vs self q ac = (calls, Inr r) \<longrightarrow>
      (\<exists>results data hits.
          search_vs (vector_store_id self) q (max_results self) = Inr results \<and>
          py_get results ''data'' (JList []) = Inr data \<and> py_iter data = Inr hits \<and>
          length (r_sources r) = length hits \<and>
          (\<forall>n<length hits.
              py_get (hits ! n) ''filename'' (JStr ''unknown'') = Inr (r_sources r ! n)))) \<and>
   (query_rag state search retrieve generate request = (calls', Inr resp) \<longrightarrow>
      (\<exists>v sd data top10 hits.
          resolve_vs_id state request = Some v \<and> search v (q_query request) = Inr sd \<and>
          py_get sd ''data'' (JList []) = Inr data \<and> slice10 data = Inr top10 \<and>
          py_iter top10 = Inr hits \<and> length hits \<le> 10 \<and>
          distinct (sources resp) \<and> length (sources resp) \<le> length hits \<and>
          (\<forall>f\<in>set (sources resp). \<exists>h\<in>set hits. \<exists>fid.
              py_get h ''file_id'' JNull = Inr fid \<and> retrieve fid = Inr f)))"
proof (intro conjI impI)
  assume "rag_answer F search_vs generate_vs self q ac = (calls, Inr r)"
  from rag_answer_sources[OF this] obtain results data hits where
    a: "search_vs (vector_store_id self) q (max_results self) = Inr results"
      "py_get results ''data'' (JList []) = Inr data" "py_iter data = Inr hits"
    and fs: "hit_filenames hits = Inr (r_sources r)"
    by blast
  from hit_filenames_nth[OF fs] a
  show "\<exists>results data hits.
          search_vs (vector_store_id self) q (max_results self) = Inr results \<and>
          py_get results ''data'' (JList []) = Inr data \<and> py_iter data = Inr hits \<and>
          length (r_sources r) = length hits \<and>
          (\<forall>n<length hits.
              py_get (hits ! n) ''filename'' (JStr ''unknown'') = Inr (r_sources r ! n))"
    by blast
next
  assume "query_rag state search retrieve generate request = (calls', Inr resp)"
  from query_rag_sources[OF this] obtain v sd ctx found where
    v: "resolve_vs_id state request = Some v" "search v (q_query request) = Inr sd"
    and qc: "query_context retrieve sd = Inr (ctx, found)"
    and s: "sources resp = [] \<or> sources resp = found"
    by blast
  from query_context_sources[OF qc] obtain data top10 hits where
    d: "py_get sd ''data'' (JList []) = Inr data" "slice10 data = Inr top10"
      "py_iter top10 = Inr hits" "length hits \<le> 10"
    and f: "distinct found" "length found \<le> length hits"
      "\<forall>f\<in>set found. \<exists>h\<in>set hits. \<exists>fid.
          py_get h ''file_id'' JNull = Inr fid \<and> retrieve fid = Inr f"
    by blast
  from s f have "distinct (sources resp) \<and> length (sources resp) \<le> length hits \<and>
          (\<forall>f\<in>set (sources resp). \<exists>h\<in>set hits. \<exists>fid.
              py_get h ''file_id'' JNull = Inr fid \<and> retrieve fid = Inr f)"
    by auto
  with v d
  show "\<exists>v sd data top10 hits.
          resolve_vs_id state request = Some v \<and> search v (q_query request) = Inr sd \<and>
          py_get sd ''data'' (JList []) = Inr data \<and> slice10 data = Inr top10 \<and>
          py_iter top10 = Inr hits \<and> length hits \<le> 10 \<and>
          distinct (sources resp) \<and> length (sources resp) \<le> length hits \<and>
          (\<forall>f\<in>set (sources resp). \<exists>h\<in>set hits. \<exists>fid.
              py_get h ''file_id'' JNull = Inr fid \<and> retrieve fid = Inr f)"
    by blast
qed

text \<open>
  Claim C2 as stated asks that each filename appear at most once in the sources. For
  two hits of the same file, \<open>RAGAssistant.answer\<close> lists the filename twice.
\<close>

theorem answer_keeps_duplicate_sources:
  "rag_answer \<lparr> fmt2f = (\<lambda>q. ''0.90''), str_of = (\<lambda>v. []) \<rparr>
     (\<lambda>vs q n. Inr (JDict [(''data'', JList
        [JDict [(''filename'', JStr ''a.md''), (''score'', JNum (9/10)),
                (''content'', JList [JDict [(''text'', JStr ''A'')]])],
         JDict [(''filename'', JStr ''a.md''), (''score'', JNum (9/10)),
                (''content'', JList [JDict [(''text'', JStr ''B'')]])]])]))
     (\<lambda>req. Inr ''model reply'')
     \<lparr> vector_store_id = ''vs_1'', model = ''gpt-4.1'', system_prompt = ''S'',
       max_results = 5, max_context_chars = 8000 \<rparr>
     ''q'' None
   = ([\<lparr> g_model = ''gpt-4.1'',
         g_messages =
           [\<lparr> role = ''system'', content = ''S'' \<rparr>,
            \<lparr> role = ''system'',
              content = ''KNOWLEDGE BASE CONTEXT:\<newline>'' @ ''[KB#1 - a.md (score: 0.90)]\<newline>A\<newline>\<newline>---\<newline>\<newline>[KB#2 - a.md (score: 0.90)]\<newline>B'' \<rparr>,
            \<lparr> role = ''user'', content = ''q'' \<rparr>] \<rparr>],
      Inr \<lparr> r_answer = ''model reply'',
            r_context = ''[KB#1 - a.md (score: 0.90)]\<newline>A\<newline>\<newline>---\<newline>\<newline>[KB#2 - a.md (score: 0.90)]\<newline>B'',
            r_sources = [JStr ''a.md'', JStr ''a.md''], r_query = ''q'', r_model = ''gpt-4.1'',
            r_search_results = JDict [(''data'', JList
        [JDict [(''filename'', JStr ''a.md''), (''score'', JNum (9/10)),
                (''content'', JList [JDict [(''text'', JStr ''A'')]])],
         JDict [(''filename'', JStr ''a.md''), (''score'', JNum (9/10)),
                (''content'', JList [JDict [(''text'', JStr ''B'')]])]])] \<rparr>)"
  by code_simp

theorem sources_of_both_paths_witness:
  "(\<exists>results data hits.
      (\<lambda>(vs::string) (q::string) (n::int). (Inr (JDict [(''data'', JList
        [JDict [(''filename'', JStr ''a.md''), (''score'', JNum (9/10)),
                (''content'', JList [JDict [(''text'', JStr ''A'')]])],
         JDict [(''filename'', JStr ''a.md''), (''score'', JNum (9/10)),
                (''content'', JList [JDict [(''text'', JStr ''B'')]])]])]) :: error + json))
        ''vs_1'' ''q'' 5 = Inr results \<and>
      py_get results ''data'' (JList []) = Inr data \<and> py_iter data = Inr hits \<and>
      length [JStr ''a.md'', JStr ''a.md''] = length hits \<and>
      (\<forall>n<length hits.
          py_get (hits ! n) ''filename'' (JStr ''unknown'') = Inr ([JStr ''a.md'', JStr ''a.md''] ! n))) \<and>
   (\<exists>v sd data top10 hits.
      resolve_vs_id \<lparr> client_configured = True, state_vector_store_id = Some ''vs_1'' \<rparr>
        \<lparr> q_query = ''q'', q_vector_store_id = None, q_model = ''gpt-5-mini'' \<rparr> = Some v \<and>
      (\<lambda>(v::string) (q::string). (Inr (JDict [(''data'', JList
        [JDict [(''file_id'', JStr ''file-1''), (''content'', JList [JDict [(''text'', JStr ''A'')]])],
         JDict [(''file_id'', JStr ''file-1''), (''content'', JList [JDict [(''text'', JStr ''B'')]])]])]) :: error + json))
        v ''q'' = Inr sd \<and>
      py_get sd ''data'' (JList []) = Inr data \<and> slice10 data = Inr top10 \<and>
      py_iter top10 = Inr hits \<and> length hits \<le> 10 \<and>
      distinct [''a.md''] \<and> length [''a.md''] \<le> length hits \<and>
      (\<exists>h\<in>set hits. \<exists>fid.
          py_get h ''file_id'' JNull = Inr fid \<and>
          (\<lambda>fid::json. (Inr ''a.md'' :: error + string)) fid = Inr ''a.md''))"
proof -
  have e1: "rag_answer \<lparr> fmt2f = (\<lambda>q. ''0.90''), str_of = (\<lambda>v. []) \<rparr>
     (\<lambda>vs q n. Inr (JDict [(''data'', JList
        [JDict [(''filename'', JStr ''a.md''), (''score'', JNum (9/10)),
                (''content'', JList [JDict [(''text'', JStr ''A'')]])],
         JDict [(''filename'', JStr ''a.md''), (''score'', JNum (9/10)),
                (''content'', JList [JDict [(''text'', JStr ''B'')]])]])]))
     (\<lambda>req. Inr ''model reply'')
     \<lparr> vector_store_id = ''vs_1'', model = ''gpt-4.1'', system_prompt = ''S'',
       max_results = 5, max_context_chars = 8000 \<rparr>
     ''q'' None
     = ([\<lparr> g_model = ''gpt-4.1'',
         g_messages =
           [\<lparr> role = ''system'', content = ''S'' \<rparr>,
            \<lparr> role = ''system'',
              content = ''KNOWLEDGE BASE CONTEXT:\<newline>'' @ ''[KB#1 - a.md (score: 0.90)]\<newline>A\<newline>\<newline>---\<newline>\<newline>[KB#2 - a.md (score: 0.90)]\<newline>B'' \<rparr>,
            \<lparr> role = ''user'', content = ''q'' \<rparr>] \<rparr>],
        Inr \<lparr> r_answer = ''model reply'',
            r_context = ''[KB#1 - a.md (score: 0.90)]\<newline>A\<newline>\<newline>---\<newline>\<newline>[KB#2 - a.md (score: 0.90)]\<newline>B'',
            r_sources = [JStr ''a.md'', JStr ''a.md''], r_query = ''q'', r_model = ''gpt-4.1'',
            r_search_results = JDict [(''data'', JList
        [JDict [(''filename'', JStr ''a.md''), (''score'', JNum (9/10)),
                (''content'', JList [JDict [(''text'', JStr ''A'')]])],
         JDict [(''filename'', JStr ''a.md''), (''score'', JNum (9/10)),
                (''content'', JList [JDict [(''text'', JStr ''B'')]])]])] \<rparr>)"
    by code_simp
  have e2: "query_rag \<lparr> client_configured = True, state_vector_store_id = Some ''vs_1'' \<rparr>
     (\<lambda>v q. Inr (JDict [(''data'', JList
        [JDict [(''file_id'', JStr ''file-1''), (''content'', JList [JDict [(''text'', JStr ''A'')]])],
         JDict [(''file_id'', JStr ''file-1''), (''content'', JList [JDict [(''text'', JStr ''B'')]])]])]))
     (\<lambda>fid. Inr ''a.md'')
     (\<lambda>req. Inr ''model reply'')
     \<lparr> q_query = ''q'', q_vector_store_id = None, q_model = ''gpt-5-mini'' \<rparr>
     = ([\<lparr> g_model = ''gpt-5-mini'', g_messages = query_messages ''[Chunk #1]\<newline>A\<newline>\<newline>---\<newline>\<newline>[Chunk #2]\<newline>B'' ''q'' \<rparr>],
        Inr \<lparr> success = True, answer = ''model reply'', sources = [''a.md''],
            context_excerpt = ''[Chunk #1]\<newline>A\<newline>\<newline>---\<newline>\<newline>[Chunk #2]\<newline>B'' \<rparr>)"
    by code_simp
  from sources_of_both_paths[THEN conjunct1, THEN mp, OF e1]
       sources_of_both_paths[THEN conjunct2, THEN mp, OF e2]
  show ?thesis by simp
qed

end
